theory Spec2Isabelle
  imports Main "HOL-Library.Sublist"
begin

section \<open>Python strings\<close>

text \<open>
  A Python \<open>str\<close> is a sequence of Unicode code points, so a string is a list of
  code points, each a natural number.  A literal of the source is written
  \<open>lit ''...''\<close>; the two status markers of the source lie beyond ASCII and are
  given by their code points.
\<close>

type_synonym codepoint = nat
type_synonym str = "codepoint list"

abbreviation (input) lit :: "string \<Rightarrow> str" where
  "lit s \<equiv> map of_char s"

text \<open>
  \<open>str.isspace\<close> for one code point: the white space of the Unicode database as
  CPython tabulates it.
\<close>

definition is_space :: "codepoint \<Rightarrow> bool" where
  "is_space c \<longleftrightarrow>
     (9 \<le> c \<and> c \<le> 13) \<or> (28 \<le> c \<and> c \<le> 32) \<or> c = 133 \<or> c = 160 \<or> c = 5760 \<or>
     (8192 \<le> c \<and> c \<le> 8202) \<or> c = 8232 \<or> c = 8233 \<or> c = 8239 \<or> c = 8287 \<or> c = 12288"

definition lstrip :: "str \<Rightarrow> str" where
  "lstrip s = dropWhile is_space s"

definition rstrip :: "str \<Rightarrow> str" where
  "rstrip s = rev (dropWhile is_space (rev s))"

text \<open>\<open>s.strip()\<close>\<close>

definition strip :: "str \<Rightarrow> str" where
  "strip s = rstrip (lstrip s)"

text \<open>
  \<open>s.split(sep)\<close> for a separator of one code point: always at least one piece,
  an empty piece between two adjacent separators.
\<close>

fun split_on :: "codepoint \<Rightarrow> str \<Rightarrow> str list" where
  "split_on sep [] = [[]]"
| "split_on sep (c # cs) =
     (if c = sep then [] # split_on sep cs
      else (case split_on sep cs of [] \<Rightarrow> [[c]] | w # ws \<Rightarrow> (c # w) # ws))"

text \<open>
  \<open>int(s)\<close> on a string, \<open>None\<close> standing for \<open>ValueError\<close>: white space around
  the number is ignored, one sign may come first, and the digits may be grouped by
  single underscores.  The digits are the ASCII digits; the decimal digits of other
  scripts, which \<open>int\<close> also reads, and the interpreter's limit on the number of
  digits are not modelled.
\<close>

definition is_digit :: "codepoint \<Rightarrow> bool" where
  "is_digit c \<longleftrightarrow> 48 \<le> c \<and> c \<le> 57"

fun parse_digits :: "nat \<Rightarrow> str \<Rightarrow> nat option" where
  "parse_digits acc [] = Some acc"
| "parse_digits acc [c] = (if is_digit c then Some (10 * acc + (c - 48)) else None)"
| "parse_digits acc (c # d # ds) =
     (if is_digit c then parse_digits (10 * acc + (c - 48)) (d # ds)
      else if c = 95 \<and> is_digit d then parse_digits (10 * acc + (d - 48)) ds
      else None)"

definition parse_unsigned :: "str \<Rightarrow> nat option" where
  "parse_unsigned s =
     (case s of [] \<Rightarrow> None
      | c # cs \<Rightarrow> if is_digit c then parse_digits (c - 48) cs else None)"

definition py_int :: "str \<Rightarrow> int option" where
  "py_int s =
     (case strip s of [] \<Rightarrow> None
      | c # cs \<Rightarrow>
          if c = 45 then map_option (\<lambda>n. - int n) (parse_unsigned cs)
          else if c = 43 then map_option int (parse_unsigned cs)
          else map_option int (parse_unsigned (c # cs)))"

section \<open>Selection parser\<close>

text \<open>
  \<open>start, end = map(int, part.split('-'))\<close>: the unpacking succeeds on exactly two
  pieces that both convert; a third piece, or a piece that is no integer, raises
  \<open>ValueError\<close>.
\<close>

definition parse_range :: "str \<Rightarrow> (int \<times> int) option" where
  "parse_range part =
     (case split_on 45 part of
        [x, y] \<Rightarrow>
          (case py_int x of None \<Rightarrow> None
           | Some a \<Rightarrow> (case py_int y of None \<Rightarrow> None | Some b \<Rightarrow> Some (a, b)))
      | _ \<Rightarrow> None)"

text \<open>The body of the loop of \<open>parse_selection\<close>, for one part.\<close>

definition add_part :: "int \<Rightarrow> int set \<Rightarrow> str \<Rightarrow> int set" where
  "add_part max_num indices part0 =
     (let part = strip part0 in
      if 45 \<in> set part then
        (case parse_range part of
           None \<Rightarrow> indices
         | Some (start, end) \<Rightarrow>
             if 1 \<le> start \<and> start \<le> end \<and> end \<le> max_num
             then indices \<union> set [start - 1 .. end - 1] else indices)
      else
        (case py_int part of
           None \<Rightarrow> indices
         | Some num \<Rightarrow>
             if 1 \<le> num \<and> num \<le> max_num then insert (num - 1) indices else indices))"

definition parse_selection :: "str \<Rightarrow> int \<Rightarrow> int list" where
  "parse_selection selection_str max_num =
     sorted_list_of_set (foldl (add_part max_num) {} (split_on 44 selection_str))"

text \<open>
  What one part contributes on its own, and when a part contributes nothing: it is no
  integer or pair of integers, or its range is inverted or leaves \<open>[1, max_num]\<close>, or
  its single number lies outside \<open>[1, max_num]\<close>.
\<close>

definition part_indices :: "int \<Rightarrow> str \<Rightarrow> int set" where
  "part_indices max_num part = add_part max_num {} part"

definition part_dropped :: "int \<Rightarrow> str \<Rightarrow> bool" where
  "part_dropped max_num part0 =
     (let part = strip part0 in
      if 45 \<in> set part then
        (case parse_range part of
           None \<Rightarrow> True
         | Some (a, b) \<Rightarrow> b < a \<or> a < 1 \<or> max_num < b)
      else
        (case py_int part of
           None \<Rightarrow> True
         | Some n \<Rightarrow> n < 1 \<or> max_num < n))"

section \<open>Command executor\<close>

text \<open>
  The operating system is a parameter: a record of the calls \<open>execute_command\<close>
  makes, over a state \<open>'w\<close> of the process and its surroundings.  A call that raises
  returns \<open>Inl\<close> with the text of the exception and leaves the state as it was.
\<close>

datatype run_outcome =
    Completed str str
  | TimeoutExpired
  | Raised str

record run_args =
  args :: str
  shell :: bool
  text_mode :: bool
  capture_output :: bool
  timeout :: "nat option"
  stdin_devnull :: bool

record 'w os =
  expanduser :: "str \<Rightarrow> 'w \<Rightarrow> str"
  chdir :: "str \<Rightarrow> 'w \<Rightarrow> str + 'w"
  getcwd :: "'w \<Rightarrow> str + str"
  subprocess_run :: "run_args \<Rightarrow> 'w \<Rightarrow> run_outcome \<times> 'w"
  log_event :: "str \<Rightarrow> str \<Rightarrow> 'w \<Rightarrow> 'w"

definition SUCCESS :: str where
  "SUCCESS = [9989]"

definition WARNING :: str where
  "WARNING = [9888, 65039]"

text \<open>The first \<open>try\<close> block of \<open>execute_command\<close>: the directory change.\<close>

definition change_directory :: "'w os \<Rightarrow> str \<Rightarrow> 'w \<Rightarrow> str \<times> 'w" where
  "change_directory sys command w =
     (let target_dir = (if strip (drop 3 command) = [] then lit ''~'' else strip (drop 3 command));
          expanded_dir = expanduser sys target_dir w
      in case chdir sys expanded_dir w of
           Inl e \<Rightarrow> (WARNING @ lit '' Error in '' @ [39] @ lit ''cd'' @ [39] @ lit '': '' @ e, w)
         | Inr w' \<Rightarrow>
             (case getcwd sys w' of
                Inl e \<Rightarrow> (WARNING @ lit '' Error in '' @ [39] @ lit ''cd'' @ [39] @ lit '': '' @ e, w')
              | Inr d \<Rightarrow> (SUCCESS @ lit '' (Working directory changed to: '' @ d @ lit '')'', w')))"

text \<open>The second \<open>try\<close> block: the command handed to \<open>subprocess.run\<close>.\<close>

definition shell_call :: "str \<Rightarrow> run_args" where
  "shell_call command =
     \<lparr>args = command, shell = True, text_mode = True, capture_output = True,
      timeout = Some 30, stdin_devnull = True\<rparr>"

definition run_in_shell :: "'w os \<Rightarrow> str \<Rightarrow> 'w \<Rightarrow> str \<times> 'w" where
  "run_in_shell sys command w =
     (case subprocess_run sys (shell_call command) w of
        (Completed out err, w') \<Rightarrow>
          (let output = strip out @ [10] @ strip err
           in (if strip output = [] then SUCCESS @ lit '' (Command executed, no output)''
               else strip output, w'))
      | (TimeoutExpired, w') \<Rightarrow>
          (WARNING @ lit '' Command '' @ [39] @ command @ [39] @ lit '' timed out (waiting for input?)'', w')
      | (Raised e, w') \<Rightarrow> (WARNING @ lit '' Execution error: '' @ e, w'))"

definition execute_command :: "'w os \<Rightarrow> str \<Rightarrow> 'w \<Rightarrow> str \<times> 'w" where
  "execute_command sys command0 w =
     (let command = strip command0 in
      if prefix (lit ''cd '') command then change_directory sys command w
      else run_in_shell sys command w)"

text \<open>
  A small operating system to evaluate the executor on: the state is the working
  directory, three directories exist, the home directory is \<open>/home/user\<close>, and the
  shell knows \<open>pwd\<close> and a \<open>sleep 60\<close> that outlasts every timeout; a
  command with a null code point cannot be started.
\<close>

definition demo_os :: "str os" where
  "demo_os =
     \<lparr>expanduser = (\<lambda>p w. case p of [] \<Rightarrow> [] | c # cs \<Rightarrow>
                        if c = 126 \<and> (cs = [] \<or> hd cs = 47) then lit ''/home/user'' @ cs else p),
      chdir = (\<lambda>d w. if d = lit ''/'' \<or> d = lit ''/tmp'' \<or> d = lit ''/home/user'' then Inr d
                      else Inl (lit ''[Errno 2] No such file or directory: '' @ [39] @ d @ [39])),
      getcwd = (\<lambda>w. Inr w),
      subprocess_run = (\<lambda>a w. if 0 \<in> set (args a) then (Raised (lit ''embedded null byte''), w)
                               else if args a = lit ''sleep 60'' then (TimeoutExpired, w)
                               else if args a = lit ''pwd'' then (Completed (w @ [10]) [], w)
                               else (Completed [] [], w)),
      log_event = (\<lambda>c out w. w)\<rparr>"

section \<open>Command parser\<close>

text \<open>
  The pieces of the pattern \<open>```bash\n(.*?)\n```\<close> and of the split marker
  \<open>```bash\<close>.
\<close>

definition TICKS :: str where
  "TICKS = [96, 96, 96]"

definition FENCE :: str where
  "FENCE = TICKS @ lit ''bash''"

definition FENCE_OPEN :: str where
  "FENCE_OPEN = FENCE @ [10]"

definition FENCE_CLOSE :: str where
  "FENCE_CLOSE = [10] @ TICKS"

text \<open>
  The lazy group \<open>(.*?)\<close> followed by a literal: the shortest stretch of the text
  after which the literal comes; under \<open>re.DOTALL\<close> the dot matches every code
  point.  \<open>None\<close> when the literal does not come at all.
\<close>

fun take_until :: "str \<Rightarrow> str \<Rightarrow> str option" where
  "take_until pat [] = (if pat = [] then Some [] else None)"
| "take_until pat (c # cs) =
     (if prefix pat (c # cs) then Some []
      else map_option ((#) c) (take_until pat cs))"

text \<open>
  \<open>re.search\<close> of the pattern: the start positions are tried from the left, and at
  the first one where the whole pattern matches the result is \<open>match.start()\<close>
  together with \<open>match.group(1)\<close>.
\<close>

fun fence_search :: "str \<Rightarrow> (nat \<times> str) option" where
  "fence_search [] = None"
| "fence_search (c # cs) =
     (case (if prefix FENCE_OPEN (c # cs)
            then take_until FENCE_CLOSE (drop (length FENCE_OPEN) (c # cs)) else None) of
        Some body \<Rightarrow> Some (0, body)
      | None \<Rightarrow> map_option (\<lambda>(i, body). (Suc i, body)) (fence_search cs))"

text \<open>\<open>text.split(sep)[0]\<close>: the text before the first occurrence of \<open>sep\<close>, all
  of it when \<open>sep\<close> does not occur.\<close>

fun before :: "str \<Rightarrow> str \<Rightarrow> str" where
  "before sep [] = []"
| "before sep (c # cs) = (if prefix sep (c # cs) then [] else c # before sep cs)"

text \<open>
  \<open>s.splitlines()\<close>: the lines of \<open>s\<close> without their line ends; a carriage return
  followed by a line feed is one line end, and a line end that closes the text opens no
  further line.
\<close>

definition is_linebreak :: "codepoint \<Rightarrow> bool" where
  "is_linebreak c \<longleftrightarrow>
     (10 \<le> c \<and> c \<le> 13) \<or> (28 \<le> c \<and> c \<le> 30) \<or> c = 133 \<or> c = 8232 \<or> c = 8233"

fun prepend :: "str \<Rightarrow> str list \<Rightarrow> str list" where
  "prepend p [] = [p]"
| "prepend p (l # ls) = (p @ l) # ls"

fun splitlines :: "str \<Rightarrow> str list" where
  "splitlines [] = []"
| "splitlines [c] = (if is_linebreak c then [[]] else [[c]])"
| "splitlines (c # d # cs) =
     (if c = 13 \<and> d = 10 then [] # splitlines cs
      else if is_linebreak c then [] # splitlines (d # cs)
      else prepend [c] (splitlines (d # cs)))"

text \<open>\<open>[cmd.strip() for cmd in lines if cmd.strip()]\<close>\<close>

definition stripped_nonempty :: "str list \<Rightarrow> str list" where
  "stripped_nonempty lines = filter (\<lambda>cmd. cmd \<noteq> []) (map strip lines)"

definition parse_ai_response :: "str \<Rightarrow> str \<times> str list" where
  "parse_ai_response text =
     (case fence_search text of
        None \<Rightarrow> (strip text, [])
      | Some (start, body) \<Rightarrow>
          (strip (before FENCE text), stripped_nonempty (splitlines (strip body))))"

text \<open>
  The parser as the specification words it: the explanation is the text before the
  start of the block, trimmed, and the commands are the non-empty trimmed lines of the
  body of the block.
\<close>

definition spec_parse_ai_response :: "str \<Rightarrow> str \<times> str list" where
  "spec_parse_ai_response text =
     (case fence_search text of
        None \<Rightarrow> (strip text, [])
      | Some (start, body) \<Rightarrow>
          (strip (take start text), stripped_nonempty (splitlines body)))"

text \<open>\<open>sep.join(xs)\<close>\<close>

fun join :: "str \<Rightarrow> str list \<Rightarrow> str" where
  "join sep [] = []"
| "join sep [x] = x"
| "join sep (x # y # ys) = x @ sep @ join sep (y # ys)"

text \<open>
  The reconstruction of a parsed response that the round-trip property of the
  specification speaks of; the source has no such function.  It is the explanation, a
  line end, and a fence of the commands, one on a line, as in the specification's example
  \<open>Do X.\n```bash\nls -la\npwd\n```\<close>.
\<close>

definition rebuild :: "str \<Rightarrow> str list \<Rightarrow> str" where
  "rebuild explanation commands =
     explanation @ [10] @ FENCE_OPEN @ join [10] commands @ FENCE_CLOSE"



section \<open>Conversation state and AI backend\<close>

text \<open>A turn of the conversation: the dictionary with the keys \<open>role\<close> and \<open>parts\<close>.\<close>

record turn =
  role :: str
  parts :: "str list"

datatype provider = Gemini | OpenAI

text \<open>
  What is sent to the backend: for Gemini the list of role and parts of every turn,
  next to the system instruction; for OpenAI the list of messages, the system message
  first.  The name of the model and the temperature are constants of the call and are
  left out; the module exits at start for any other provider.
\<close>

datatype request =
    GeminiRequest str "(str \<times> str list) list"
  | OpenAIRequest "(str \<times> str) list"

text \<open>
  The configuration of the session: the provider, the system prompt and the backend
  itself, which answers a request with a text or raises (\<open>Inl\<close>).
\<close>

record backend =
  api_provider :: provider
  system_prompt :: str
  generate :: "request \<Rightarrow> str + str"

text \<open>\<open>h['parts'][0]\<close> raises on an empty list.\<close>

fun openai_messages :: "turn list \<Rightarrow> str + (str \<times> str) list" where
  "openai_messages [] = Inr []"
| "openai_messages (h # hs) =
     (case parts h of
        [] \<Rightarrow> Inl (lit ''list index out of range'')
      | p # _ \<Rightarrow>
          (case openai_messages hs of
             Inl e \<Rightarrow> Inl e
           | Inr ms \<Rightarrow> Inr ((role h, p) # ms)))"

definition build_request :: "backend \<Rightarrow> turn list \<Rightarrow> str + request" where
  "build_request cfg chat_history =
     (case api_provider cfg of
        Gemini \<Rightarrow>
          Inr (GeminiRequest (system_prompt cfg) (map (\<lambda>h. (role h, parts h)) chat_history))
      | OpenAI \<Rightarrow>
          (case openai_messages chat_history of
             Inl e \<Rightarrow> Inl e
           | Inr ms \<Rightarrow> Inr (OpenAIRequest ((lit ''system'', system_prompt cfg) # ms))))"

definition get_ai_response :: "backend \<Rightarrow> turn list \<Rightarrow> str + str" where
  "get_ai_response cfg chat_history =
     (case build_request cfg chat_history of
        Inl e \<Rightarrow> Inl e
      | Inr req \<Rightarrow> generate cfg req)"


section \<open>Turn orchestrator\<close>

text \<open>
  \<open>s.lower()\<close>: the capital letters of ASCII and Latin-1 go to their small letters;
  the case tables of the rest of Unicode are not modelled, those code points stay.
\<close>

definition lower_cp :: "codepoint \<Rightarrow> codepoint" where
  "lower_cp c =
     (if (65 \<le> c \<and> c \<le> 90) \<or> (192 \<le> c \<and> c \<le> 222 \<and> c \<noteq> 215) then c + 32 else c)"

definition lower :: "str \<Rightarrow> str" where
  "lower s = map lower_cp s"

text \<open>
  \<open>Prompt.ask\<close> of the terminal library on one line typed by the user: an empty
  line gives the default when there is one, any other line comes back stripped.
\<close>

definition prompt_ask :: "str option \<Rightarrow> str \<Rightarrow> str" where
  "prompt_ask dflt line =
     (case dflt of
        Some d \<Rightarrow> if line = [] then d else strip line
      | None \<Rightarrow> strip line)"

datatype phase =
    AwaitingUserInput
  | AIWorking
  | AwaitingUserDecision "str list"
  | Terminated

record 'w session =
  chat_history :: "turn list"
  phase :: phase
  world :: 'w

definition user_turn :: "str \<Rightarrow> turn" where
  "user_turn content = \<lparr>role = lit ''user'', parts = [content]\<rparr>"

definition model_turn :: "str \<Rightarrow> turn" where
  "model_turn content = \<lparr>role = lit ''model'', parts = [content]\<rparr>"

definition initial :: "'w \<Rightarrow> 'w session" where
  "initial w = \<lparr>chat_history = [], phase = AwaitingUserInput, world = w\<rparr>"

text \<open>
  The outer loop up to the inner one: a line is read (\<open>None\<close> when the input has
  ended, which nothing catches there); \<open>exit\<close> and \<open>quit\<close> end the session, any
  other line becomes a user turn.
\<close>

definition await_user_input :: "str option \<Rightarrow> 'w session \<Rightarrow> 'w session" where
  "await_user_input line s =
     (case line of
        None \<Rightarrow> s\<lparr>phase := Terminated\<rparr>
      | Some raw \<Rightarrow>
          (let user_input = prompt_ask None raw in
           if lower user_input = lit ''exit'' \<or> lower user_input = lit ''quit''
           then s\<lparr>phase := Terminated\<rparr>
           else s\<lparr>chat_history := chat_history s @ [user_turn user_input], phase := AIWorking\<rparr>))"

text \<open>
  The first half of an iteration of the inner loop: the backend is asked with the
  history; an exception ends the inner loop, a response is appended as a model turn and
  parsed, and without commands the inner loop ends.
\<close>

definition ai_working :: "backend \<Rightarrow> 'w session \<Rightarrow> 'w session" where
  "ai_working cfg s =
     (case get_ai_response cfg (chat_history s) of
        Inl e \<Rightarrow> s\<lparr>phase := AwaitingUserInput\<rparr>
      | Inr ai_response_text \<Rightarrow>
          (let (explanation, commands) = parse_ai_response ai_response_text;
               s' = s\<lparr>chat_history := chat_history s @ [model_turn ai_response_text]\<rparr>
           in if commands = [] then s'\<lparr>phase := AwaitingUserInput\<rparr>
              else s'\<lparr>phase := AwaitingUserDecision commands\<rparr>))"

text \<open>The loop over \<open>to_execute\<close>: each command is run and logged, its block kept.\<close>

fun execute_all :: "'w os \<Rightarrow> str list \<Rightarrow> 'w \<Rightarrow> str list \<times> 'w" where
  "execute_all sys [] w = ([], w)"
| "execute_all sys (cmd # cmds) w =
     (let (output, w1) = execute_command sys cmd w;
          w2 = log_event sys cmd output w1;
          (executed_outputs, w3) = execute_all sys cmds w2
      in ((lit ''$ '' @ cmd @ [10] @ output) # executed_outputs, w3))"

text \<open>\<open>xs[i]\<close> with Python's negative indices, \<open>None\<close> for \<open>IndexError\<close>.\<close>

definition py_index :: "'a list \<Rightarrow> int \<Rightarrow> 'a option" where
  "py_index xs i =
     (if 0 \<le> i \<and> i < int (length xs) then Some (xs ! nat i)
      else if - int (length xs) \<le> i \<and> i < 0 then Some (xs ! nat (int (length xs) + i))
      else None)"

text \<open>\<open>[commands[i] for i in selected_indices]\<close>\<close>

fun select_commands :: "str list \<Rightarrow> int list \<Rightarrow> str list option" where
  "select_commands commands [] = Some []"
| "select_commands commands (i # is) =
     (case py_index commands i of
        None \<Rightarrow> None
      | Some cmd \<Rightarrow> map_option ((#) cmd) (select_commands commands is))"

text \<open>
  The end of an iteration, from \<open>if to_execute:\<close> on: the commands are executed, the
  tool output is appended when it is not empty, and the inner loop goes on.
\<close>

definition finish_turn :: "'w os \<Rightarrow> str list \<Rightarrow> str \<Rightarrow> 'w session \<Rightarrow> 'w session" where
  "finish_turn sys to_execute tool_output_str0 s =
     (let (tool_output_str, w) =
            (if to_execute \<noteq> [] then
               (let (executed_outputs, w') = execute_all sys to_execute (world s)
                in (lit ''TOOL_OUTPUT:'' @ [10] @ join [10] executed_outputs, w'))
             else (tool_output_str0, world s))
      in if tool_output_str \<noteq> []
         then s\<lparr>chat_history := chat_history s @ [user_turn tool_output_str],
                phase := AIWorking, world := w\<rparr>
         else s\<lparr>phase := AIWorking, world := w\<rparr>)"

text \<open>
  The second half of an iteration: the choice of the user on the proposed commands.
  The end of the input raises inside the \<open>try\<close> block, which ends the inner loop, and so
  does an index out of range.
\<close>

definition await_user_decision ::
  "'w os \<Rightarrow> str list \<Rightarrow> str option \<Rightarrow> 'w session \<Rightarrow> 'w session" where
  "await_user_decision sys commands line s =
     (case line of
        None \<Rightarrow> s\<lparr>phase := AwaitingUserInput\<rparr>
      | Some raw \<Rightarrow>
          (let keuze = lower (prompt_ask (Some (lit ''y'')) raw) in
           if keuze = lit ''y'' \<or> keuze = lit ''yes'' then finish_turn sys commands [] s
           else if keuze = lit ''n'' \<or> keuze = lit ''no''
           then finish_turn sys []
                  (lit ''TOOL_OUTPUT:'' @ [10] @ lit ''(Commands skipped by user)'') s
           else
             (let selected_indices = parse_selection keuze (int (length commands)) in
              if selected_indices \<noteq> [] then
                (case select_commands commands selected_indices of
                   None \<Rightarrow> s\<lparr>phase := AwaitingUserInput\<rparr>
                 | Some to_execute \<Rightarrow> finish_turn sys to_execute [] s)
              else s\<lparr>chat_history := chat_history s @ [user_turn keuze], phase := AIWorking\<rparr>)))"

text \<open>One transition of the session; \<open>line\<close> is what the terminal gives when asked.\<close>

definition step :: "backend \<Rightarrow> 'w os \<Rightarrow> str option \<Rightarrow> 'w session \<Rightarrow> 'w session" where
  "step cfg sys line s =
     (case phase s of
        AwaitingUserInput \<Rightarrow> await_user_input line s
      | AIWorking \<Rightarrow> ai_working cfg s
      | AwaitingUserDecision commands \<Rightarrow> await_user_decision sys commands line s
      | Terminated \<Rightarrow> s)"


text \<open>
  A backend to evaluate the session on: it proposes \<open>pwd\<close> until that command has
  been answered and then reports without a command.
\<close>

definition demo_backend :: backend where
  "demo_backend =
     \<lparr>api_provider = OpenAI,
      system_prompt = lit ''You are Companion'',
      generate = (\<lambda>req. case req of
          OpenAIRequest ms \<Rightarrow>
            if length ms < 3
            then Inr (lit ''Do X.'' @ [10] @ TICKS @ lit ''bash'' @ [10] @ lit ''pwd'' @ [10] @ TICKS)
            else Inr (lit ''All done!'')
        | GeminiRequest sys hs \<Rightarrow> Inl (lit ''unavailable''))\<rparr>"



section \<open>Properties of the selection parser\<close>

lemmas string_eval = strip_def lstrip_def rstrip_def is_space_def

lemmas selection_eval =
  parse_selection_def add_part_def parse_range_def py_int_def parse_unsigned_def is_digit_def
  part_dropped_def part_indices_def Let_def string_eval

lemma add_part_finite: "finite indices \<Longrightarrow> finite (add_part max_num indices part)"
  by (simp add: add_part_def Let_def split: option.splits prod.splits)

lemma add_part_bounds:
  "indices \<subseteq> {0 ..< max_num} \<Longrightarrow> add_part max_num indices part \<subseteq> {0 ..< max_num}"
  by (auto simp: add_part_def Let_def split: option.splits prod.splits)

lemma foldl_add_part_finite:
  "finite indices \<Longrightarrow> finite (foldl (add_part max_num) indices ps)"
  by (induction ps arbitrary: indices) (simp_all add: add_part_finite)

lemma foldl_add_part_bounds:
  "indices \<subseteq> {0 ..< max_num} \<Longrightarrow> foldl (add_part max_num) indices ps \<subseteq> {0 ..< max_num}"
  by (induction ps arbitrary: indices) (simp_all add: add_part_bounds)

text \<open>
  C3: whatever the selection string and \<open>max_num\<close>, every index that
  \<open>parse_selection\<close> returns lies in \<open>[0, max_num)\<close>, and the list is strictly
  ascending and has no duplicates.
\<close>

theorem parse_selection_range_ascending:
  "set (parse_selection s max_num) \<subseteq> {0 ..< max_num} \<and>
   sorted_wrt (<) (parse_selection s max_num) \<and>
   distinct (parse_selection s max_num)"
proof -
  let ?I = "foldl (add_part max_num) {} (split_on 44 s)"
  have fin: "finite ?I" by (rule foldl_add_part_finite) simp
  have sub: "?I \<subseteq> {0 ..< max_num}" by (rule foldl_add_part_bounds) simp
  from fin sub show ?thesis by (simp add: parse_selection_def)
qed

theorem parse_selection_range_ascending_witness:
  "parse_selection (lit ''1,3-4'') 5 = [0, 2, 3] \<and>
   set (parse_selection (lit ''1,3-4'') 5) \<subseteq> {0 ..< 5} \<and>
   sorted_wrt (<) (parse_selection (lit ''1,3-4'') 5) \<and>
   distinct (parse_selection (lit ''1,3-4'') 5)"
proof -
  have "parse_selection (lit ''1,3-4'') 5 = [0, 2, 3]" by (simp add: selection_eval)
  with parse_selection_range_ascending [of "lit ''1,3-4''" 5] show ?thesis by simp
qed






section \<open>Properties of the command executor\<close>

lemmas executor_eval =
  execute_command_def change_directory_def run_in_shell_def shell_call_def demo_os_def
  SUCCESS_def WARNING_def Let_def string_eval

lemma dropWhile_last: "dropWhile P xs \<noteq> [] \<Longrightarrow> last (dropWhile P xs) = last xs"
  by (induction xs) (auto split: if_splits)

lemma rstrip_last: "rstrip s \<noteq> [] \<Longrightarrow> \<not> is_space (last (rstrip s))"
proof -
  assume ne: "rstrip s \<noteq> []"
  then have "dropWhile is_space (rev s) \<noteq> []" by (simp add: rstrip_def)
  then have "\<not> is_space (hd (dropWhile is_space (rev s)))" by (rule hd_dropWhile)
  with ne show ?thesis by (simp add: rstrip_def last_rev)
qed

lemma strip_last: "strip s \<noteq> [] \<Longrightarrow> \<not> is_space (last (strip s))"
  unfolding strip_def by (rule rstrip_last)


text \<open>
  The default target \<open>~\<close> of the directory change is never taken: a stripped command
  that starts with \<open>cd\<close> and a space has an argument.
\<close>

lemma cd_target_nonempty:
  assumes "prefix (lit ''cd '') (strip command0)"
  shows "strip (drop 3 (strip command0)) \<noteq> []"
proof -
  from assms obtain r where r: "strip command0 = lit ''cd '' @ r" by (auto simp: prefix_def)
  then have ne: "strip command0 \<noteq> []" by simp
  have "r \<noteq> []"
  proof
    assume "r = []"
    with r have "last (strip command0) = 32" by simp
    with strip_last [OF ne] show False by (simp add: is_space_def)
  qed
  with r have lr: "last r = last (strip command0)" by simp
  with strip_last [OF ne] have "\<not> is_space (last r)" by simp
  with \<open>r \<noteq> []\<close> have "\<exists>x\<in>set r. \<not> is_space x" by (metis last_in_set)
  then have "dropWhile is_space r \<noteq> []" by (simp add: dropWhile_eq_Nil_conv)
  then have "lstrip r \<noteq> []" by (simp add: lstrip_def)
  then have "\<exists>x\<in>set (lstrip r). \<not> is_space x"
    unfolding lstrip_def using hd_dropWhile [of is_space r] hd_in_set by blast
  then have "strip r \<noteq> []" by (simp add: strip_def rstrip_def dropWhile_eq_Nil_conv)
  with r show ?thesis by simp
qed

text \<open>
  With an argument the directory change is made by the process itself: the result does
  not depend on what \<open>subprocess.run\<close> would do, and on success the message carries
  the success marker and the new working directory.
\<close>

lemma execute_command_cd_changes_directory:
  assumes "prefix (lit ''cd '') (strip command)"
  shows "execute_command (sys\<lparr>subprocess_run := f\<rparr>) command w = execute_command sys command w"
    and "chdir sys (expanduser sys (strip (drop 3 (strip command))) w) w = Inr w' \<Longrightarrow>
         getcwd sys w' = Inr d \<Longrightarrow>
         execute_command sys command w =
           (SUCCESS @ lit '' (Working directory changed to: '' @ d @ lit '')'', w')"
  using assms cd_target_nonempty [OF assms]
  by (simp_all add: execute_command_def change_directory_def Let_def split: sum.splits)

lemma execute_command_cd_example:
  "execute_command demo_os (lit ''cd ~'') (lit ''/tmp'') =
     (SUCCESS @ lit '' (Working directory changed to: /home/user)'', lit ''/home/user'')"
  by (simp add: executor_eval)

text \<open>
  C1 at the bare word \<open>cd\<close>: the prefix test asks for \<open>cd\<close> followed by a space,
  which the stripped command never ends in, so the command is handed to the shell and
  the working directory of the process stays what it was.
\<close>

theorem execute_command_bare_cd_runs_shell:
  "execute_command sys (lit ''cd'') w = run_in_shell sys (lit ''cd'') w \<and>
   execute_command sys (lit ''cd '') w = run_in_shell sys (lit ''cd'') w \<and>
   execute_command demo_os (lit ''cd'') (lit ''/tmp'') =
     (SUCCESS @ lit '' (Command executed, no output)'', lit ''/tmp'')"
  by (simp add: executor_eval)

text \<open>
  C7: a command whose stripped text does not start with \<open>cd\<close> and a space is run by
  one call of \<open>subprocess.run\<close> through a shell, with the input stream disconnected
  and a timeout of 30 seconds.  When the timeout expires the result is a
  warning-marked message that names the command and says it timed out; any other
  exception of the call comes back as a warning-marked message, not as an exception.
\<close>

theorem execute_command_shell_timeout:
  assumes "\<not> prefix (lit ''cd '') (strip command)"
  shows "shell (shell_call (strip command)) \<and>
         stdin_devnull (shell_call (strip command)) \<and>
         timeout (shell_call (strip command)) = Some 30 \<and>
         args (shell_call (strip command)) = strip command \<and>
         snd (execute_command sys command w) =
           snd (subprocess_run sys (shell_call (strip command)) w) \<and>
         (fst (subprocess_run sys (shell_call (strip command)) w) = TimeoutExpired \<longrightarrow>
            fst (execute_command sys command w) =
              WARNING @ lit '' Command '' @ [39] @ strip command @ [39] @
                lit '' timed out (waiting for input?)'') \<and>
         (\<forall>e. fst (subprocess_run sys (shell_call (strip command)) w) = Raised e \<longrightarrow>
            fst (execute_command sys command w) = WARNING @ lit '' Execution error: '' @ e)"
  using assms
  by (cases "subprocess_run sys (shell_call (strip command)) w";
      cases "fst (subprocess_run sys (shell_call (strip command)) w)")
     (simp_all add: execute_command_def run_in_shell_def shell_call_def Let_def)

theorem execute_command_shell_timeout_witness:
  "\<not> prefix (lit ''cd '') (strip (lit ''sleep 60'')) \<and>
   fst (subprocess_run demo_os (shell_call (strip (lit ''sleep 60''))) (lit ''/tmp'')) = TimeoutExpired \<and>
   execute_command demo_os (lit ''sleep 60'') (lit ''/tmp'') =
     (WARNING @ lit '' Command '' @ [39] @ lit ''sleep 60'' @ [39] @
        lit '' timed out (waiting for input?)'', lit ''/tmp'') \<and>
   \<not> prefix (lit ''cd '') (strip [108, 0, 115]) \<and>
   fst (subprocess_run demo_os (shell_call (strip [108, 0, 115])) (lit ''/tmp'')) =
     Raised (lit ''embedded null byte'') \<and>
   execute_command demo_os [108, 0, 115] (lit ''/tmp'') =
     (WARNING @ lit '' Execution error: embedded null byte'', lit ''/tmp'')"
proof -
  have h: "\<not> prefix (lit ''cd '') (strip (lit ''sleep 60''))" by (simp add: string_eval)
  have s: "strip (lit ''sleep 60'') = lit ''sleep 60''" by (simp add: string_eval)
  have r: "subprocess_run demo_os (shell_call (lit ''sleep 60'')) (lit ''/tmp'')
           = (TimeoutExpired, lit ''/tmp'')"
    by (simp add: demo_os_def shell_call_def)
  have h': "\<not> prefix (lit ''cd '') (strip [108, 0, 115])" by (simp add: string_eval)
  have s': "strip [108, 0, 115] = [108, 0, 115]" by (simp add: string_eval)
  have r': "subprocess_run demo_os (shell_call [108, 0, 115]) (lit ''/tmp'')
           = (Raised (lit ''embedded null byte''), lit ''/tmp'')"
    by (simp add: demo_os_def shell_call_def)
  have a: "execute_command demo_os (lit ''sleep 60'') (lit ''/tmp'') =
     (WARNING @ lit '' Command '' @ [39] @ lit ''sleep 60'' @ [39] @
        lit '' timed out (waiting for input?)'', lit ''/tmp'')"
    using execute_command_shell_timeout [OF h, of demo_os "lit ''/tmp''"] s r
    by (simp add: prod_eq_iff)
  have b: "execute_command demo_os [108, 0, 115] (lit ''/tmp'') =
     (WARNING @ lit '' Execution error: embedded null byte'', lit ''/tmp'')"
    using execute_command_shell_timeout [OF h', of demo_os "lit ''/tmp''"] s' r'
    by (simp add: prod_eq_iff)
  from h s r h' s' r' a b show ?thesis by simp
qed

text \<open>
  C8: when the directory change of a command that starts with \<open>cd\<close> and a space
  fails, \<open>execute_command\<close> returns the warning marker followed by the error, and
  the state of the process, its working directory included, is what it was.
\<close>

theorem execute_command_cd_failure:
  assumes "prefix (lit ''cd '') (strip command)"
    and "chdir sys (expanduser sys (strip (drop 3 (strip command))) w) w = Inl e"
  shows "execute_command sys command w =
           (WARNING @ lit '' Error in '' @ [39] @ lit ''cd'' @ [39] @ lit '': '' @ e, w) \<and>
         prefix WARNING (fst (execute_command sys command w)) \<and>
         getcwd sys (snd (execute_command sys command w)) = getcwd sys w"
  using assms cd_target_nonempty [OF assms(1)]
  by (simp add: execute_command_def change_directory_def Let_def)

theorem execute_command_cd_failure_witness:
  "prefix (lit ''cd '') (strip (lit ''cd /nonexistent'')) \<and>
   chdir demo_os (expanduser demo_os (strip (drop 3 (strip (lit ''cd /nonexistent'')))) (lit ''/tmp''))
     (lit ''/tmp'') =
     Inl (lit ''[Errno 2] No such file or directory: '' @ [39] @ lit ''/nonexistent'' @ [39]) \<and>
   prefix WARNING (fst (execute_command demo_os (lit ''cd /nonexistent'') (lit ''/tmp''))) \<and>
   getcwd demo_os (snd (execute_command demo_os (lit ''cd /nonexistent'') (lit ''/tmp''))) =
     Inr (lit ''/tmp'')"
proof -
  have h: "prefix (lit ''cd '') (strip (lit ''cd /nonexistent''))" by (simp add: string_eval)
  have c: "chdir demo_os
             (expanduser demo_os (strip (drop 3 (strip (lit ''cd /nonexistent'')))) (lit ''/tmp''))
             (lit ''/tmp'') =
           Inl (lit ''[Errno 2] No such file or directory: '' @ [39] @ lit ''/nonexistent'' @ [39])"
    by (simp add: demo_os_def string_eval)
  have g: "getcwd demo_os (lit ''/tmp'') = Inr (lit ''/tmp'')" by (simp add: demo_os_def)
  from execute_command_cd_failure [OF h c] h c g show ?thesis by simp
qed

section \<open>Properties of the orchestrator\<close>

lemmas session_eval =
  step_def await_user_input_def ai_working_def await_user_decision_def finish_turn_def
  prompt_ask_def lower_def lower_cp_def user_turn_def model_turn_def initial_def
  get_ai_response_def build_request_def demo_backend_def py_index_def














text \<open>
  C4 at the choice \<open>Use /Home\<close> on one proposed command: it is neither yes nor no and
  selects nothing, and the turn appended is the choice in small letters, not the text
  the user typed; the prompt of the outer loop appends the same text as typed.
\<close>

theorem interrupt_text_is_lowercased:
  "await_user_decision sys [lit ''ls''] (Some (lit ''Use /Home'')) s =
     s\<lparr>chat_history := chat_history s @ [user_turn (lit ''use /home'')], phase := AIWorking\<rparr> \<and>
   user_turn (lit ''use /home'') \<noteq> user_turn (lit ''Use /Home'') \<and>
   await_user_input (Some (lit ''Use /Home'')) s =
     s\<lparr>chat_history := chat_history s @ [user_turn (lit ''Use /Home'')], phase := AIWorking\<rparr>"
  by (simp add: session_eval selection_eval)





section \<open>Properties of the command parser\<close>

lemma lstrip_spaces_append:
  "\<forall>c\<in>set ws. is_space c \<Longrightarrow> lstrip (ws @ x) = lstrip x"
  by (simp add: lstrip_def dropWhile_append)

lemma rstrip_append_spaces:
  "\<forall>c\<in>set ws. is_space c \<Longrightarrow> rstrip (x @ ws) = rstrip x"
  by (simp add: rstrip_def dropWhile_append)

lemma lstrip_all_spaces: "\<forall>c\<in>set ws. is_space c \<Longrightarrow> lstrip ws = []"
  by (simp add: lstrip_def)

lemma strip_all_spaces: "\<forall>c\<in>set ws. is_space c \<Longrightarrow> strip ws = []"
proof -
  assume "\<forall>c\<in>set ws. is_space c"
  then have d: "dropWhile is_space ws = []" by (simp add: dropWhile_eq_Nil_conv)
  show ?thesis unfolding strip_def lstrip_def rstrip_def d by simp
qed

lemma strip_spaces_append:
  "\<forall>c\<in>set ws. is_space c \<Longrightarrow> strip (ws @ x) = strip x"
  by (simp add: strip_def lstrip_spaces_append)

lemma strip_append_spaces:
  assumes "\<forall>c\<in>set ws. is_space c"
  shows "strip (x @ ws) = strip x"
proof (cases "\<forall>c\<in>set x. is_space c")
  case True
  with assms have "\<forall>c\<in>set (x @ ws). is_space c" by auto
  then have "strip (x @ ws) = []" by (rule strip_all_spaces)
  with True show ?thesis by (simp add: strip_all_spaces)
next
  case False
  then have "lstrip (x @ ws) = lstrip x @ ws" by (auto simp: lstrip_def dropWhile_append)
  with assms show ?thesis by (simp add: strip_def rstrip_append_spaces)
qed

lemma lstrip_decompose: "\<exists>ws. (\<forall>c\<in>set ws. is_space c) \<and> s = ws @ lstrip s"
proof -
  have "s = takeWhile is_space s @ lstrip s" by (simp add: lstrip_def)
  moreover have "\<forall>c\<in>set (takeWhile is_space s). is_space c" by (auto dest: set_takeWhileD)
  ultimately show ?thesis by blast
qed

lemma rstrip_decompose: "\<exists>ws. (\<forall>c\<in>set ws. is_space c) \<and> s = rstrip s @ ws"
proof -
  have "rev (takeWhile is_space (rev s) @ dropWhile is_space (rev s)) = s"
    by (simp only: takeWhile_dropWhile_id rev_rev_ident)
  then have "rev (dropWhile is_space (rev s)) @ rev (takeWhile is_space (rev s)) = s"
    by (simp only: rev_append)
  then have "s = rstrip s @ rev (takeWhile is_space (rev s))" by (simp only: rstrip_def)
  moreover have "\<forall>c\<in>set (rev (takeWhile is_space (rev s))). is_space c"
    by (auto dest: set_takeWhileD)
  ultimately show ?thesis by blast
qed



lemma splitlines_nonbreak: "\<not> is_linebreak c \<Longrightarrow> splitlines (c # s) = prepend [c] (splitlines s)"
  by (cases s) (auto simp: is_linebreak_def)

lemma splitlines_break:
  "is_linebreak c \<Longrightarrow> c \<noteq> 13 \<Longrightarrow> splitlines (c # s) = [] # splitlines s"
  by (cases s) simp_all

lemma splitlines_LF: "splitlines (10 # s) = [] # splitlines s"
  by (rule splitlines_break) (simp_all add: is_linebreak_def)

lemma prepend_prepend: "prepend p (prepend q ls) = prepend (p @ q) ls"
  by (cases ls) simp_all

lemma stripped_nonempty_Cons:
  "stripped_nonempty (l # ls) = (if strip l = [] then [] else [strip l]) @ stripped_nonempty ls"
  by (simp add: stripped_nonempty_def)

lemma stripped_nonempty_Nil: "stripped_nonempty [] = []"
  by (simp add: stripped_nonempty_def)

lemma strip_Nil: "strip [] = []"
  by (simp add: strip_def lstrip_def rstrip_def)

lemma stripped_nonempty_prepend_Nil: "stripped_nonempty (prepend [] ls) = stripped_nonempty ls"
  by (cases ls) (simp_all add: stripped_nonempty_def strip_Nil)

lemma splitlines_set: "l \<in> set (splitlines s) \<Longrightarrow> set l \<subseteq> set s"
proof (induction s arbitrary: l rule: splitlines.induct)
  case 1
  then show ?case by simp
next
  case (2 c)
  then show ?case by (auto split: if_splits)
next
  case (3 c d cs)
  show ?case
  proof (cases "c = 13 \<and> d = 10")
    case True
    with "3.prems" have "l = [] \<or> l \<in> set (splitlines cs)" by simp
    with "3.IH"(1) [OF True] show ?thesis by fastforce
  next
    case False
    show ?thesis
    proof (cases "is_linebreak c")
      case True
      with False "3.prems" have "l = [] \<or> l \<in> set (splitlines (d # cs))" by auto
      with "3.IH"(2) [OF False True] show ?thesis by fastforce
    next
      case nb: False
      with False "3.prems" have m: "l \<in> set (prepend [c] (splitlines (d # cs)))"
        by (auto split: if_splits)
      show ?thesis
      proof (cases "splitlines (d # cs)")
        case Nil
        with m show ?thesis by simp
      next
        case (Cons k ks)
        with m have "l = c # k \<or> l \<in> set ks" by simp
        moreover have "set k \<subseteq> set (d # cs)" using "3.IH"(3) [OF False nb, of k] Cons by simp
        moreover have "l \<in> set ks \<Longrightarrow> set l \<subseteq> set (d # cs)"
          using "3.IH"(3) [OF False nb, of l] Cons by simp
        ultimately show ?thesis by auto
      qed
    qed
  qed
qed


lemma stripped_nonempty_spaces:
  "\<forall>l\<in>set ls. \<forall>c\<in>set l. is_space c \<Longrightarrow> stripped_nonempty ls = []"
  by (induction ls) (simp_all add: stripped_nonempty_def strip_all_spaces)

lemma splitlines_spaces_Nil:
  assumes "\<forall>c\<in>set ws. is_space c"
  shows "stripped_nonempty (splitlines ws) = []"
proof -
  have "\<forall>k\<in>set (splitlines ws). \<forall>c\<in>set k. is_space c"
    using assms splitlines_set by blast
  then show ?thesis by (rule stripped_nonempty_spaces)
qed

lemma splitlines_spaces:
  assumes "\<forall>c\<in>set ws. is_space c"
  shows "stripped_nonempty (prepend p (splitlines ws)) = stripped_nonempty [p]"
proof (cases "splitlines ws")
  case Nil
  then show ?thesis by simp
next
  case (Cons l ls)
  have sp: "\<forall>k\<in>set (splitlines ws). \<forall>c\<in>set k. is_space c"
    using assms splitlines_set by blast
  with Cons have "\<forall>c\<in>set l. is_space c" and "\<forall>k\<in>set ls. \<forall>c\<in>set k. is_space c" by simp_all
  then have "strip (p @ l) = strip p" and "stripped_nonempty ls = []"
    by (simp_all add: strip_append_spaces stripped_nonempty_spaces)
  with Cons show ?thesis by (simp add: stripped_nonempty_Cons stripped_nonempty_Nil)
qed

lemma stripped_nonempty_append_spaces:
  assumes "\<forall>c\<in>set ws. is_space c"
  shows "stripped_nonempty (prepend p (splitlines (s @ ws))) =
         stripped_nonempty (prepend p (splitlines s))"
proof (induction s arbitrary: p rule: splitlines.induct)
  case 1
  show ?case using splitlines_spaces [OF assms, of p] by simp
next
  case (2 c)
  show ?case
  proof (cases ws)
    case Nil
    then show ?thesis by simp
  next
    case (Cons d ws')
    with assms have sp': "\<forall>c\<in>set ws'. is_space c" by simp
    show ?thesis
    proof (cases "c = 13 \<and> d = 10")
      case True
      have "stripped_nonempty (splitlines ws') = []"
        by (rule splitlines_spaces_Nil [OF sp'])
      with True Cons show ?thesis
        by (simp add: stripped_nonempty_Cons is_linebreak_def stripped_nonempty_Nil)
    next
      case False
      show ?thesis
      proof (cases "is_linebreak c")
        case True
        have "stripped_nonempty (splitlines ws) = []"
          by (rule splitlines_spaces_Nil [OF assms])
        with True False Cons show ?thesis
          by (auto simp: stripped_nonempty_Cons stripped_nonempty_Nil)
      next
        case nb: False
        have "stripped_nonempty (prepend p (splitlines ([c] @ ws))) =
              stripped_nonempty (prepend (p @ [c]) (splitlines ws))"
          using nb by (simp add: splitlines_nonbreak prepend_prepend)
        also have "\<dots> = stripped_nonempty [p @ [c]]" by (rule splitlines_spaces [OF assms])
        finally show ?thesis using nb by simp
      qed
    qed
  qed
next
  case (3 c d cs)
  show ?case
  proof (cases "c = 13 \<and> d = 10")
    case True
    from "3.IH"(1) [OF True, of "[]"]
    have "stripped_nonempty (splitlines (cs @ ws)) = stripped_nonempty (splitlines cs)"
      by (simp add: stripped_nonempty_prepend_Nil)
    with True show ?thesis by (simp add: stripped_nonempty_Cons)
  next
    case False
    show ?thesis
    proof (cases "is_linebreak c")
      case True
      from "3.IH"(2) [OF False True, of "[]"]
      have "stripped_nonempty (splitlines (d # cs @ ws)) = stripped_nonempty (splitlines (d # cs))"
        by (simp add: stripped_nonempty_prepend_Nil)
      with True False show ?thesis by (auto simp: stripped_nonempty_Cons)
    next
      case nb: False
      from "3.IH"(3) [OF False nb, of "p @ [c]"] nb False
      show ?thesis by (auto simp: prepend_prepend)
    qed
  qed
qed

lemma splitlines_space_Cons:
  assumes "is_space c"
  shows "stripped_nonempty (splitlines (c # s)) = stripped_nonempty (splitlines s)"
proof (cases "is_linebreak c")
  case True
  show ?thesis
  proof (cases "c = 13 \<and> (\<exists>s'. s = 10 # s')")
    case True
    then obtain s' where "c = 13" "s = 10 # s'" by blast
    then show ?thesis by (simp add: splitlines_LF stripped_nonempty_Cons strip_Nil)
  next
    case False
    with True have "splitlines (c # s) = [] # splitlines s"
      by (cases s) auto
    then show ?thesis by (simp add: stripped_nonempty_Cons strip_Nil)
  qed
next
  case False
  then have e: "splitlines (c # s) = prepend [c] (splitlines s)" by (rule splitlines_nonbreak)
  show ?thesis
  proof (cases "splitlines s")
    case Nil
    with e assms show ?thesis
      by (simp add: stripped_nonempty_def strip_all_spaces)
  next
    case (Cons l ls)
    have "strip ([c] @ l) = strip l" using assms by (intro strip_spaces_append) simp
    with e Cons show ?thesis by (simp add: stripped_nonempty_Cons)
  qed
qed

lemma splitlines_spaces_append:
  "\<forall>c\<in>set ws. is_space c \<Longrightarrow>
   stripped_nonempty (splitlines (ws @ s)) = stripped_nonempty (splitlines s)"
  by (induction ws) (simp_all add: splitlines_space_Cons)

lemma stripped_nonempty_strip:
  "stripped_nonempty (splitlines (strip body)) = stripped_nonempty (splitlines body)"
proof -
  obtain w1 where w1: "\<forall>c\<in>set w1. is_space c" "body = w1 @ lstrip body"
    using lstrip_decompose by blast
  obtain w2 where w2: "\<forall>c\<in>set w2. is_space c" "lstrip body = rstrip (lstrip body) @ w2"
    using rstrip_decompose by blast
  have "stripped_nonempty (splitlines body) = stripped_nonempty (splitlines (lstrip body))"
    using splitlines_spaces_append [OF w1(1), of "lstrip body"] w1(2) by simp
  also have "\<dots> = stripped_nonempty (splitlines (rstrip (lstrip body) @ w2))"
    using w2(2) by simp
  also have "\<dots> = stripped_nonempty (splitlines (rstrip (lstrip body)))"
    using stripped_nonempty_append_spaces [OF w2(1), of "[]" "rstrip (lstrip body)"]
    by (simp add: stripped_nonempty_prepend_Nil)
  finally show ?thesis by (simp add: strip_def)
qed

lemmas parser_eval =
  parse_ai_response_def spec_parse_ai_response_def stripped_nonempty_def
  TICKS_def FENCE_def FENCE_OPEN_def FENCE_CLOSE_def is_linebreak_def rebuild_def string_eval

lemma before_take: "before sep s = take (length (before sep s)) s"
  by (induction s) auto

lemma prefix_FENCE_OPEN: "prefix FENCE_OPEN s \<Longrightarrow> prefix FENCE s"
  by (auto simp: FENCE_OPEN_def prefix_def)

lemma fence_search_before:
  "fence_search s = Some (start, body) \<Longrightarrow> length (before FENCE s) \<le> start"
proof (induction s arbitrary: start)
  case Nil
  then show ?case by simp
next
  case (Cons c cs)
  show ?case
  proof (cases "prefix FENCE (c # cs)")
    case True
    then show ?thesis by simp
  next
    case False
    then have "\<not> prefix FENCE_OPEN (c # cs)" using prefix_FENCE_OPEN by blast
    with Cons.prems obtain i where "fence_search cs = Some (i, body)" "start = Suc i"
      by (auto split: option.splits)
    with Cons.IH [of i] False show ?thesis by simp
  qed
qed

text \<open>
  What the parser returns.  Without a fenced shell block the explanation is the whole
  text, trimmed, and there are no commands.  With one, the commands are the non-empty
  lines of the body of the first block, each trimmed, in order, and the explanation is
  the text before the first \<open>```bash\<close>, trimmed.  That text is an initial piece of
  the text before the block, and it is all of it when the block opens at the first
  \<open>```bash\<close> of the text; then the parser is the parser of the specification.
\<close>

lemma parse_ai_response_explanation_commands:
  "(fence_search text = None \<longrightarrow> parse_ai_response text = (strip text, [])) \<and>
   (\<forall>start body. fence_search text = Some (start, body) \<longrightarrow>
      parse_ai_response text =
        (strip (before FENCE text), stripped_nonempty (splitlines body)) \<and>
      prefix (before FENCE text) (take start text) \<and>
      (length (before FENCE text) = start \<longrightarrow>
         parse_ai_response text = spec_parse_ai_response text))"
proof (intro conjI allI impI)
  assume "fence_search text = None"
  then show "parse_ai_response text = (strip text, [])" by (simp add: parse_ai_response_def)
next
  fix start body
  assume f: "fence_search text = Some (start, body)"
  then show p: "parse_ai_response text =
        (strip (before FENCE text), stripped_nonempty (splitlines body))"
    by (simp add: parse_ai_response_def stripped_nonempty_strip)
  have "before FENCE text = take (length (before FENCE text)) text" by (rule before_take)
  moreover have "length (before FENCE text) \<le> start" using f by (rule fence_search_before)
  ultimately show "prefix (before FENCE text) (take start text)"
    by (metis take_is_prefix take_take min.absorb1 min.commute)
  assume "length (before FENCE text) = start"
  with before_take [of FENCE "text"] have "before FENCE text = take start text" by simp
  with p f show "parse_ai_response text = spec_parse_ai_response text"
    by (simp add: spec_parse_ai_response_def)
qed

lemma parse_ai_response_explanation_commands_example:
  "fence_search (lit ''Do X.'' @ [10] @ FENCE_OPEN @ lit ''ls -la'' @ [10] @ lit ''pwd'' @ FENCE_CLOSE)
     = Some (6, lit ''ls -la'' @ [10] @ lit ''pwd'') \<and>
   length (before FENCE (lit ''Do X.'' @ [10] @ FENCE_OPEN @ lit ''ls -la'' @ [10] @ lit ''pwd'' @ FENCE_CLOSE)) = 6 \<and>
   parse_ai_response (lit ''Do X.'' @ [10] @ FENCE_OPEN @ lit ''ls -la'' @ [10] @ lit ''pwd'' @ FENCE_CLOSE)
     = (lit ''Do X.'', [lit ''ls -la'', lit ''pwd'']) \<and>
   spec_parse_ai_response (lit ''Do X.'' @ [10] @ FENCE_OPEN @ lit ''ls -la'' @ [10] @ lit ''pwd'' @ FENCE_CLOSE)
     = (lit ''Do X.'', [lit ''ls -la'', lit ''pwd'']) \<and>
   fence_search (lit ''All done!'') = None \<and>
   parse_ai_response (lit ''All done!'') = (lit ''All done!'', [])"
proof -
  let ?t = "lit ''Do X.'' @ [10] @ FENCE_OPEN @ lit ''ls -la'' @ [10] @ lit ''pwd'' @ FENCE_CLOSE"
  have f: "fence_search ?t = Some (6, lit ''ls -la'' @ [10] @ lit ''pwd'')"
    by (simp add: parser_eval)
  have b: "length (before FENCE ?t) = 6" by (simp add: parser_eval)
  have s: "spec_parse_ai_response ?t = (lit ''Do X.'', [lit ''ls -la'', lit ''pwd''])"
    by (simp add: parser_eval)
  have n: "fence_search (lit ''All done!'') = None" by (simp add: parser_eval)
  have a: "strip (lit ''All done!'') = lit ''All done!''" by (simp add: string_eval)
  from parse_ai_response_explanation_commands [of ?t] f b
  have "parse_ai_response ?t = spec_parse_ai_response ?t" by blast
  moreover from parse_ai_response_explanation_commands [of "lit ''All done!''"] n
  have "parse_ai_response (lit ''All done!'') = (strip (lit ''All done!''), [])" by blast
  ultimately show ?thesis using f b s n a by simp
qed

text \<open>
  C2 at a text that mentions \<open>```bash\<close> before its block: the block starts at
  position 20 and holds the command \<open>ls\<close>, the text before it is the sentence
  \<open>Use ```bash fences.\<close>, and the explanation returned stops at the mention.
\<close>

theorem parse_ai_response_explanation_cut_short:
  "fence_search (lit ''Use '' @ FENCE @ lit '' fences.'' @ [10] @ FENCE_OPEN @ lit ''ls'' @ FENCE_CLOSE)
     = Some (20, lit ''ls'') \<and>
   parse_ai_response (lit ''Use '' @ FENCE @ lit '' fences.'' @ [10] @ FENCE_OPEN @ lit ''ls'' @ FENCE_CLOSE)
     = (lit ''Use'', [lit ''ls'']) \<and>
   spec_parse_ai_response (lit ''Use '' @ FENCE @ lit '' fences.'' @ [10] @ FENCE_OPEN @ lit ''ls'' @ FENCE_CLOSE)
     = (lit ''Use '' @ FENCE @ lit '' fences.'', [lit ''ls''])"
  by (simp add: parser_eval)



















end
